theory Spec2Isabelle
  imports Complex_Main "HOL-Library.Sublist"
begin

section \<open>Python strings and builtins used by the viewer\<close>

text \<open>
  A Python \<open>str\<close> is modelled as a \<open>string\<close>, each \<open>char\<close> standing for one code point
  in the range 0..255 (Latin-1). \<open>s1 in s2\<close> on strings is contiguous containment,
  \<^const>\<open>sublist\<close>; \<open>s.startswith(p)\<close> is \<^const>\<open>prefix\<close>.
\<close>

definition isspace :: "char \<Rightarrow> bool" where
  \<comment> \<open>\<open>str.isspace\<close> on the code points below 256\<close>
  "isspace c = (let n = (of_char c :: nat) in
     (9 \<le> n \<and> n \<le> 13) \<or> (28 \<le> n \<and> n \<le> 32) \<or> n = 133 \<or> n = 160)"

definition strip :: "string \<Rightarrow> string" where
  "strip s = rev (dropWhile isspace (rev (dropWhile isspace s)))"

definition lower_char :: "char \<Rightarrow> char" where
  \<comment> \<open>\<open>A..Z\<close> and the Latin-1 capitals \<open>0xC0..0xDE\<close> (without the sign \<open>0xD7\<close>) move up by 32\<close>
  "lower_char c = (let n = (of_char c :: nat) in
     if (65 \<le> n \<and> n \<le> 90) \<or> (192 \<le> n \<and> n \<le> 222 \<and> n \<noteq> 215)
     then char_of (n + 32) else c)"

definition lower :: "string \<Rightarrow> string" where
  "lower s = map lower_char s"

fun split :: "char \<Rightarrow> string \<Rightarrow> string list" where
  \<comment> \<open>\<open>s.split(sep)\<close> for a one-character separator: never an empty list\<close>
  "split sep [] = [[]]"
| "split sep (c # cs) =
     (if c = sep then [] # split sep cs
      else (case split sep cs of
              w # ws \<Rightarrow> (c # w) # ws
            | [] \<Rightarrow> [[c]]))"

fun join :: "string \<Rightarrow> string list \<Rightarrow> string" where
  \<comment> \<open>\<open>sep.join(parts)\<close>\<close>
  "join sep [] = []"
| "join sep [w] = w"
| "join sep (w # v # ws) = w @ sep @ join sep (v # ws)"

definition isdigit :: "char \<Rightarrow> bool" where
  "isdigit c = (let n = (of_char c :: nat) in 48 \<le> n \<and> n \<le> 57)"

definition digit_val :: "char \<Rightarrow> nat" where
  "digit_val c = of_char c - 48"

definition digit_char :: "nat \<Rightarrow> char" where
  "digit_char d = char_of (48 + d)"

function str_nat :: "nat \<Rightarrow> string" where
  "str_nat n = (if n < 10 then [digit_char n] else str_nat (n div 10) @ [digit_char (n mod 10)])"
  by pat_completeness auto
termination
  by (relation "measure (\<lambda>n. n)") auto

declare str_nat.simps [simp del]

definition str_int :: "int \<Rightarrow> string" where
  \<comment> \<open>\<open>str(i)\<close> of a Python int\<close>
  "str_int i = (if i < 0 then CHR ''-'' # str_nat (nat (- i)) else str_nat (nat i))"

text \<open>
  \<open>int(s)\<close> in base 10: surrounding whitespace is dropped, one sign is allowed, and the
  digits may be grouped by single underscores. \<open>None\<close> stands for the \<open>ValueError\<close> the
  builtin raises on anything else. (The interpreter's optional cap on the number of
  digits is a run-time setting and is not part of the model.)
\<close>

fun int_digits_ok :: "string \<Rightarrow> bool" where
  \<comment> \<open>a digit, then digits each preceded by at most one underscore\<close>
  "int_digits_ok [] = False"
| "int_digits_ok [c] = isdigit c"
| "int_digits_ok (c # d # cs) =
     (isdigit c \<and> (if d = CHR ''_'' then int_digits_ok cs else int_digits_ok (d # cs)))"

definition digits_val :: "string \<Rightarrow> nat" where
  "digits_val ds = foldl (\<lambda>acc c. 10 * acc + digit_val c) 0 (filter isdigit ds)"

definition py_int :: "string \<Rightarrow> int option" where
  "py_int s =
     (let t = strip s;
          (neg, ds) = (case t of
                         c # r \<Rightarrow> if c = CHR ''-'' then (True, r)
                                  else if c = CHR ''+'' then (False, r)
                                  else (False, t)
                       | [] \<Rightarrow> (False, t))
      in if int_digits_ok ds
         then Some (if neg then - int (digits_val ds) else int (digits_val ds))
         else None)"

text \<open>
  A Python \<open>float\<close>: a finite value is represented by the rational it denotes (the two
  signed zeros are one value: they compare equal and are both falsy), besides the two
  infinities and \<open>nan\<close>.
\<close>

datatype pyfloat = Finite rat | PosInf | NegInf | NaN

definition float_truthy :: "pyfloat \<Rightarrow> bool" where
  \<comment> \<open>\<open>bool(x)\<close> is \<open>x != 0.0\<close>\<close>
  "float_truthy x = (x \<noteq> Finite 0)"


section \<open>Records and the two parsers\<close>

text \<open>
  One entry of \<open>all_variants\<close>: the dictionary built in \<open>parse_with_pysam\<close> and in
  \<open>parse_native\<close>. The keys \<open>id\<close> and \<open>qual\<close> may hold \<open>None\<close> (the structured reader hands
  \<open>None\<close> over for an absent value), hence the option types.
\<close>

record variant =
  chrom :: string
  pos :: int
  id_v :: "string option"
  ref :: string
  alt :: string
  qual :: "pyfloat option"
  filter_v :: string
  info :: string
  raw_info :: string

datatype py_exception =
    ValueError string    \<comment> \<open>\<open>int(cols[1])\<close> on the text it could not read\<close>
  | StreamError string   \<comment> \<open>raised by opening or reading the file, with its message\<close>
  | IndexError           \<comment> \<open>a list read out of range\<close>

text \<open>
  A text file as the loop \<open>for line in f\<close> sees it: the lines it yields, and the
  exception, if any, that ends the iteration early (a read or decompression failure).
\<close>

type_synonym 'a stream = "'a list \<times> py_exception option"

definition columns :: "string \<Rightarrow> string list" where
  \<comment> \<open>\<open>line.strip().split('\t')\<close>\<close>
  "columns line = split (CHR 0x09) (strip line)"

definition make_variant :: "(string \<Rightarrow> pyfloat option) \<Rightarrow> string \<Rightarrow> string list \<Rightarrow> py_exception + variant" where
  \<comment> \<open>the body of the loop of \<open>parse_native\<close> for a line of at least 8 columns; \<open>fl\<close> is the
      builtin \<open>float\<close>, \<open>None\<close> for its \<open>ValueError\<close>\<close>
  "make_variant fl line cols =
     (let q = (if cols ! 5 \<noteq> ''.'' then (case fl (cols ! 5) of Some x \<Rightarrow> x | None \<Rightarrow> Finite 0)
               else Finite 0)
      in case py_int (cols ! 1) of
           None \<Rightarrow> Inl (ValueError (cols ! 1))
         | Some p \<Rightarrow> Inr \<lparr> chrom = cols ! 0, pos = p, id_v = Some (cols ! 2), ref = cols ! 3,
                           alt = cols ! 4, qual = Some q, filter_v = cols ! 6, info = cols ! 7,
                           raw_info = line \<rparr>)"

fun parse_lines :: "(string \<Rightarrow> pyfloat option) \<Rightarrow> string list \<Rightarrow> variant list
                    \<Rightarrow> variant list \<times> py_exception option" where
  \<comment> \<open>the loop over the lines, appending to \<open>all_variants\<close>; an exception leaves the list as
      it stands at that line\<close>
  "parse_lines fl [] all_variants = (all_variants, None)"
| "parse_lines fl (line # rest) all_variants =
     (if prefix ''#'' line then parse_lines fl rest all_variants
      else let cols = columns line in
        if length cols < 8 then parse_lines fl rest all_variants
        else (case make_variant fl line cols of
                Inl e \<Rightarrow> (all_variants, Some e)
              | Inr v \<Rightarrow> parse_lines fl rest (all_variants @ [v])))"

datatype opener = GzipOpen | PlainOpen

definition choose_opener :: "string \<Rightarrow> opener" where
  "choose_opener path = (if suffix ''.gz'' path then GzipOpen else PlainOpen)"

definition parse_native :: "(string \<Rightarrow> pyfloat option) \<Rightarrow> (opener \<Rightarrow> string \<Rightarrow> py_exception + string stream)
                    \<Rightarrow> string \<Rightarrow> variant list \<Rightarrow> variant list \<times> py_exception option" where
  \<comment> \<open>\<open>open_text\<close> is the file system: what \<open>opener(path, 'rt', encoding='utf-8')\<close> gives\<close>
  "parse_native fl open_text path all_variants =
     (case open_text (choose_opener path) path of
        Inl e \<Rightarrow> (all_variants, Some e)
      | Inr (lines, read_failure) \<Rightarrow>
          (case parse_lines fl lines all_variants of
             (vs, Some e) \<Rightarrow> (vs, Some e)
           | (vs, None) \<Rightarrow> (vs, read_failure)))"

text \<open>
  What \<open>parse_with_pysam\<close> reads from one record of the structured reader: the
  accessors \<open>chrom\<close>, \<open>pos\<close>, \<open>id\<close>, \<open>ref\<close>, \<open>alts\<close>, \<open>qual\<close>, \<open>filter.keys()\<close>,
  \<open>info.items()\<close> and \<open>str(rec)\<close>. Alleles and INFO values are kept by their \<open>str\<close> form,
  which is all the loop uses of them.
\<close>

datatype info_value =
    Flag bool               \<comment> \<open>a \<open>bool\<close>\<close>
  | Multi "string list"     \<comment> \<open>a list or tuple, its elements by their \<open>str\<close>\<close>
  | Scalar string           \<comment> \<open>anything else, by its \<open>str\<close>\<close>

record pysam_rec =
  rec_chrom :: string
  rec_pos :: int
  rec_id :: "string option"
  rec_ref :: string
  rec_alts :: "string list option"
  rec_qual :: "pyfloat option"
  rec_filter_keys :: "string list"
  rec_info :: "(string \<times> info_value) list"
  rec_str :: string

definition filter_string :: "string list \<Rightarrow> string" where
  "filter_string flt = (if flt = [] \<or> ''PASS'' \<in> set flt then ''PASS'' else join '';'' flt)"

definition alt_string :: "string list option \<Rightarrow> string" where
  \<comment> \<open>\<open>rec.alts\<close> is falsy when it is \<open>None\<close> or empty\<close>
  "alt_string alts = (case alts of
       None \<Rightarrow> ''.''
     | Some as \<Rightarrow> if as = [] then ''.'' else join '','' as)"

fun info_part :: "string \<times> info_value \<Rightarrow> string" where
  "info_part (k, Flag b) = (if b then k else k @ ''='' @ ''False'')"
| "info_part (k, Multi vs) = k @ ''='' @ join '','' vs"
| "info_part (k, Scalar v) = k @ ''='' @ v"

definition info_string :: "(string \<times> info_value) list \<Rightarrow> string" where
  "info_string items = join '';'' (map info_part items)"

definition pysam_variant :: "pysam_rec \<Rightarrow> variant" where
  "pysam_variant r =
     \<lparr> chrom = rec_chrom r, pos = rec_pos r, id_v = rec_id r, ref = rec_ref r,
       alt = alt_string (rec_alts r), qual = rec_qual r,
       filter_v = filter_string (rec_filter_keys r), info = info_string (rec_info r),
       raw_info = rec_str r \<rparr>"

fun parse_recs :: "pysam_rec list \<Rightarrow> variant list \<Rightarrow> variant list" where
  "parse_recs [] all_variants = all_variants"
| "parse_recs (r # rest) all_variants = parse_recs rest (all_variants @ [pysam_variant r])"

definition parse_with_pysam :: "(string \<Rightarrow> py_exception + pysam_rec stream) \<Rightarrow> string
                    \<Rightarrow> variant list \<Rightarrow> variant list \<times> py_exception option" where
  \<comment> \<open>\<open>variant_file\<close> is \<open>pysam.VariantFile\<close>: it fails to open, or yields records and
      possibly fails while iterating\<close>
  "parse_with_pysam variant_file path all_variants =
     (case variant_file path of
        Inl e \<Rightarrow> (all_variants, Some e)
      | Inr (recs, read_failure) \<Rightarrow> (parse_recs recs all_variants, read_failure))"


section \<open>The main window: filtering and loading\<close>

datatype detail = Placeholder | ErrorText py_exception
  \<comment> \<open>what \<open>detail_view\<close> shows; \<open>ErrorText e\<close> is the text \<open>"Error:\n" + str(e)\<close>\<close>

record main_window =
  all_variants :: "variant list"
  filtered_variants :: "variant list"
  model_data :: "variant list"       \<comment> \<open>\<open>self.model._data\<close>\<close>
  search_input :: string             \<comment> \<open>\<open>self.search_input.text()\<close>\<close>
  chk_pass :: bool                   \<comment> \<open>\<open>self.chk_pass.isChecked()\<close>\<close>
  lbl_count :: string
  lbl_status :: string
  detail_view :: detail

definition str_opt :: "string option \<Rightarrow> string" where
  \<comment> \<open>\<open>str(x)\<close> for \<open>x\<close> a string or \<open>None\<close>\<close>
  "str_opt x = (case x of None \<Rightarrow> ''None'' | Some s \<Rightarrow> s)"

fun filter_loop :: "string \<Rightarrow> bool \<Rightarrow> variant list \<Rightarrow> variant list" where
  \<comment> \<open>the loop of \<open>apply_filters\<close>; each \<open>continue\<close> drops the record\<close>
  "filter_loop search_text show_pass [] = []"
| "filter_loop search_text show_pass (v # vs) =
     (if show_pass \<and> filter_v v \<noteq> ''PASS'' then filter_loop search_text show_pass vs
      else if search_text \<noteq> [] \<and>
              (\<not> sublist search_text (lower (chrom v)) \<and>
               \<not> sublist search_text (str_int (pos v)) \<and>
               \<not> sublist search_text (lower (str_opt (id_v v))) \<and>
               \<not> sublist search_text (lower (info v)))
           then filter_loop search_text show_pass vs
      else v # filter_loop search_text show_pass vs)"

definition keeps :: "string \<Rightarrow> bool \<Rightarrow> variant \<Rightarrow> bool" where
  \<comment> \<open>the record reaches \<open>filtered_variants.append\<close>: neither \<open>continue\<close> is taken\<close>
  "keeps search_text show_pass v =
     (\<not> (show_pass \<and> filter_v v \<noteq> ''PASS'') \<and>
      \<not> (search_text \<noteq> [] \<and>
              (\<not> sublist search_text (lower (chrom v)) \<and>
               \<not> sublist search_text (str_int (pos v)) \<and>
               \<not> sublist search_text (lower (str_opt (id_v v))) \<and>
               \<not> sublist search_text (lower (info v)))))"

definition apply_filters :: "main_window \<Rightarrow> main_window" where
  "apply_filters w =
     (let search_text = lower (search_input w);
          show_pass = chk_pass w;
          fv = filter_loop search_text show_pass (all_variants w)
      in w \<lparr> filtered_variants := fv, model_data := fv,
             lbl_count := ''Variants: '' @ str_int (int (length fv)) \<rparr>)"

definition basename :: "string \<Rightarrow> string" where
  \<comment> \<open>\<open>os.path.basename\<close>: what follows the last slash\<close>
  "basename path = rev (takeWhile (\<lambda>c. c \<noteq> CHR ''/'') (rev path))"

definition load_vcf :: "bool \<Rightarrow> (string \<Rightarrow> pyfloat option)
                    \<Rightarrow> (opener \<Rightarrow> string \<Rightarrow> py_exception + string stream)
                    \<Rightarrow> (string \<Rightarrow> py_exception + pysam_rec stream)
                    \<Rightarrow> string \<Rightarrow> main_window \<Rightarrow> main_window" where
  \<comment> \<open>\<open>has_pysam\<close> is the module flag, \<open>file_path\<close> the answer of the file dialog\<close>
  "load_vcf has_pysam fl open_text variant_file file_path w =
     (if file_path = [] then w
      else let w1 = w \<lparr> lbl_status := ''Parsing...'' \<rparr>;
               w2 = w1 \<lparr> all_variants := [] \<rparr>;
               (vs, failure) = (if has_pysam then parse_with_pysam variant_file file_path (all_variants w2)
                                else parse_native fl open_text file_path (all_variants w2));
               w3 = w2 \<lparr> all_variants := vs \<rparr>
           in case failure of
                None \<Rightarrow> (apply_filters w3) \<lparr> lbl_status := ''Loaded: '' @ basename file_path \<rparr>
              | Some e \<Rightarrow> w3 \<lparr> lbl_status := ''Error loading file'', detail_view := ErrorText e \<rparr>)"

section \<open>The table model\<close>

datatype cell = Text string | Rounded2 pyfloat
  \<comment> \<open>\<open>Rounded2 q\<close> is the text \<open>str(round(q, 2))\<close>\<close>

definition display_role :: "variant \<Rightarrow> nat \<Rightarrow> cell option" where
  \<comment> \<open>the \<open>DisplayRole\<close> branch of \<open>VcfTableModel.data\<close> on one row; \<open>None\<close> when no branch
      returns\<close>
  "display_role row_data col =
     (if col = 0 then Some (Text (chrom row_data))
      else if col = 1 then Some (Text (str_int (pos row_data)))
      else if col = 2 then Some (Text (case id_v row_data of
                                          None \<Rightarrow> ''.''
                                        | Some s \<Rightarrow> if s \<noteq> [] then s else ''.''))
      else if col = 3 then Some (Text (ref row_data))
      else if col = 4 then Some (Text (alt row_data))
      else if col = 5 then Some (case qual row_data of
                                    None \<Rightarrow> Text ''.''
                                  | Some q \<Rightarrow> if float_truthy q then Rounded2 q else Text ''.'')
      else if col = 6 then Some (Text (filter_v row_data))
      else if col = 7 then Some (Text (info row_data))
      else None)"

definition data :: "variant list \<Rightarrow> nat \<Rightarrow> nat \<Rightarrow> py_exception + cell option" where
  "data rows row col =
     (if row < length rows then Inr (display_role (rows ! row) col) else Inl IndexError)"

section \<open>The filter as the specification words it\<close>

definition contains_ci :: "string \<Rightarrow> string \<Rightarrow> bool" where
  \<comment> \<open>\<open>s\<close> contains \<open>query\<close> as a substring, letter case ignored\<close>
  "contains_ci query s = sublist (lower query) (lower s)"

definition spec_includes :: "string \<Rightarrow> bool \<Rightarrow> variant \<Rightarrow> bool" where
  "spec_includes query passOnly r =
     ((passOnly \<longrightarrow> filter_v r = ''PASS'') \<and>
      (query \<noteq> [] \<longrightarrow>
         contains_ci query (chrom r) \<or> contains_ci query (str_int (pos r)) \<or>
         contains_ci query (str_opt (id_v r)) \<or> contains_ci query (info r)))"

section \<open>Data lines\<close>

definition data_line :: "string \<Rightarrow> bool" where
  \<comment> \<open>a line that reaches the body of the loop: no header mark, at least 8 columns\<close>
  "data_line line = (\<not> prefix ''#'' line \<and> 8 \<le> length (columns line))"

definition pos_readable :: "string \<Rightarrow> bool" where
  "pos_readable line = (py_int (columns line ! 1) \<noteq> None)"

definition native_record :: "(string \<Rightarrow> pyfloat option) \<Rightarrow> string \<Rightarrow> variant" where
  \<comment> \<open>the record appended for a data line with a readable POS\<close>
  "native_record fl line = projr (make_variant fl line (columns line))"


section \<open>One data line seen by both readers\<close>


section \<open>Sample inputs\<close>

definition float_decimal :: "string \<Rightarrow> pyfloat option" where
  \<comment> \<open>\<open>float\<close> on plain decimal text (sign, digits, fraction), with the decimal value taken
      exactly; \<open>None\<close> is its \<open>ValueError\<close>. The samples below call it on such text only.\<close>
  "float_decimal s =
     (let t = strip s;
          (neg, u) = (case t of
                        c # r \<Rightarrow> if c = CHR ''-'' then (True, r)
                                 else if c = CHR ''+'' then (False, r)
                                 else (False, t)
                      | [] \<Rightarrow> (False, t));
          ip = takeWhile (\<lambda>c. c \<noteq> CHR ''.'') u;
          fp = drop 1 (dropWhile (\<lambda>c. c \<noteq> CHR ''.'') u)
      in if (ip \<noteq> [] \<or> fp \<noteq> []) \<and> list_all isdigit ip \<and> list_all isdigit fp
         then Some (Finite ((if neg then - 1 else 1) * (of_nat (digits_val (ip @ fp)) / 10 ^ length fp)))
         else None)"

definition tab_line :: "string list \<Rightarrow> string" where
  \<comment> \<open>the columns joined by tabs, with the newline that ends a line of the file\<close>
  "tab_line cols = join [CHR 0x09] cols @ [CHR 0x0A]"

definition line_dot :: string where
  "line_dot = tab_line [''chr1'', ''100'', ''.'', ''A'', ''G'', ''.'', ''PASS'', ''DP=10'']"

definition line_zero :: string where
  "line_zero = tab_line [''chr1'', ''100'', ''.'', ''A'', ''G'', ''0'', ''PASS'', ''DP=10'']"

definition line_bad_pos :: string where
  "line_bad_pos = tab_line [''chr1'', ''abc'', ''rs1'', ''A'', ''G'', ''50'', ''PASS'', ''DP=10'']"

definition line_good :: string where
  "line_good = tab_line [''chr2'', ''200'', ''rs2'', ''C'', ''T'', ''50'', ''q10'', ''DP=7'']"

definition line_short :: string where
  "line_short = tab_line [''chr1'', ''100'', ''rs1'']"

definition variant_good :: variant where
  "variant_good = \<lparr> chrom = ''chr2'', pos = 200, id_v = Some ''rs2'', ref = ''C'', alt = ''T'',
       qual = Some (Finite 50), filter_v = ''q10'', info = ''DP=7'', raw_info = line_good \<rparr>"

definition variant_dot :: variant where
  "variant_dot = \<lparr> chrom = ''chr1'', pos = 100, id_v = Some ''.'', ref = ''A'', alt = ''G'',
       qual = Some (Finite 0), filter_v = ''PASS'', info = ''DP=10'', raw_info = line_dot \<rparr>"

definition rec_dot :: pysam_rec where
  \<comment> \<open>the structured reader's record of \<open>line_dot\<close>: absent ID and QUAL are \<open>None\<close>\<close>
  "rec_dot = \<lparr> rec_chrom = ''chr1'', rec_pos = 100, rec_id = None, rec_ref = ''A'',
       rec_alts = Some [''G''], rec_qual = None, rec_filter_keys = [''PASS''],
       rec_info = [(''DP'', Scalar ''10'')], rec_str = line_dot \<rparr>"

definition window0 :: main_window where
  \<comment> \<open>a window that shows one record loaded earlier\<close>
  "window0 = \<lparr> all_variants = [variant_good], filtered_variants = [variant_good],
       model_data = [variant_good], search_input = [], chk_pass = False,
       lbl_count = ''Variants: 1'', lbl_status = ''Loaded: old.vcf'', detail_view = Placeholder \<rparr>"


definition no_variant_file :: "string \<Rightarrow> py_exception + pysam_rec stream" where
  "no_variant_file path = Inl (StreamError ''No such file or directory'')"

definition file_of :: "string list \<Rightarrow> opener \<Rightarrow> string \<Rightarrow> py_exception + string stream" where
  \<comment> \<open>a file system in which every path opens and yields the given lines\<close>
  "file_of lines opn path = Inr (lines, None)"


definition window_search :: "string \<Rightarrow> bool \<Rightarrow> main_window" where
  \<comment> \<open>two records loaded by the native parser, with the given search text and check box\<close>
  "window_search q p = \<lparr> all_variants = [variant_dot, variant_good], filtered_variants = [],
       model_data = [], search_input = q, chk_pass = p,
       lbl_count = ''Variants: 0'', lbl_status = ''Ready'', detail_view = Placeholder \<rparr>"

definition window_pysam :: "string \<Rightarrow> bool \<Rightarrow> main_window" where
  \<comment> \<open>one record loaded through the structured reader\<close>
  "window_pysam q p = \<lparr> all_variants = parse_recs [rec_dot] [], filtered_variants = [],
       model_data = [], search_input = q, chk_pass = p,
       lbl_count = ''Variants: 0'', lbl_status = ''Ready'', detail_view = Placeholder \<rparr>"

section \<open>Auxiliary facts\<close>

lemma filter_loop_step:
  "filter_loop st sp (v # vs) = (if keeps st sp v then v # filter_loop st sp vs else filter_loop st sp vs)"
  by (simp add: keeps_def)

lemma filter_loop_filter: "filter_loop st sp vs = filter (keeps st sp) vs"
  by (induction vs) (simp_all only: filter_loop.simps(1) filter_loop_step filter.simps if_True if_False split: if_splits)

lemma lower_digit_char: "d < 10 \<Longrightarrow> lower_char (digit_char d) = digit_char d"
  by (simp add: lower_char_def digit_char_def Let_def)

lemma lower_str_nat: "lower (str_nat n) = str_nat n"
proof (induction n rule: str_nat.induct)
  case (1 n)
  show ?case
  proof (cases "n < 10")
    case True
    then show ?thesis by (subst (1 2) str_nat.simps) (simp add: lower_def lower_digit_char)
  next
    case False
    with 1 show ?thesis
      by (subst (1 2) str_nat.simps) (simp add: lower_def lower_digit_char)
  qed
qed

lemma lower_str_int: "lower (str_int i) = str_int i"
  using lower_str_nat by (simp add: str_int_def lower_def lower_char_def)

lemma lower_Nil_iff: "lower q = [] \<longleftrightarrow> q = []"
  by (simp add: lower_def)

lemma keeps_spec: "keeps (lower q) p v = spec_includes q p v"
  by (auto simp: keeps_def spec_includes_def contains_ci_def lower_Nil_iff lower_str_int)




lemma parse_lines_append:
  "parse_lines fl (pre @ post) acc =
     (case parse_lines fl pre acc of
        (vs, None) \<Rightarrow> parse_lines fl post vs
      | (vs, Some e) \<Rightarrow> (vs, Some e))"
  by (induction pre arbitrary: acc) (auto simp: Let_def split: sum.splits)

lemma make_variant_ok:
  "pos_readable line \<Longrightarrow> make_variant fl line (columns line) = Inr (native_record fl line)"
  by (auto simp: pos_readable_def native_record_def make_variant_def Let_def split: option.splits)

lemma make_variant_bad:
  "\<not> pos_readable line \<Longrightarrow> make_variant fl line (columns line) = Inl (ValueError (columns line ! 1))"
  by (auto simp: pos_readable_def make_variant_def Let_def split: option.splits)

lemma parse_lines_fst:
  "fst (parse_lines fl lines acc) =
     acc @ map (native_record fl)
             (filter data_line (takeWhile (\<lambda>l. data_line l \<longrightarrow> pos_readable l) lines))"
proof (induction lines arbitrary: acc)
  case Nil
  then show ?case by simp
next
  case (Cons l ls)
  show ?case
  proof (cases "data_line l")
    case False
    then show ?thesis using Cons by (auto simp: data_line_def Let_def)
  next
    case True
    then show ?thesis using Cons
      by (cases "pos_readable l") (auto simp: data_line_def Let_def make_variant_ok make_variant_bad)
  qed
qed

lemma parse_lines_snd:
  "snd (parse_lines fl lines acc) = None \<longleftrightarrow> (\<forall>l \<in> set lines. data_line l \<longrightarrow> pos_readable l)"
proof (induction lines arbitrary: acc)
  case Nil
  then show ?case by simp
next
  case (Cons l ls)
  show ?case
  proof (cases "data_line l")
    case False
    then show ?thesis using Cons by (auto simp: data_line_def Let_def)
  next
    case True
    then show ?thesis using Cons
      by (cases "pos_readable l") (auto simp: data_line_def Let_def make_variant_ok make_variant_bad)
  qed
qed

lemma parse_recs_map: "parse_recs recs acc = acc @ map pysam_variant recs"
  by (induction recs arbitrary: acc) simp_all


lemma raw_info_native: "pos_readable l \<Longrightarrow> raw_info (native_record fl l) = l"
  by (auto simp: native_record_def pos_readable_def make_variant_def Let_def split: option.splits)

lemma qual_native:
  "pos_readable l \<Longrightarrow> qual (native_record fl l) =
     Some (if columns l ! 5 \<noteq> ''.'' then (case fl (columns l ! 5) of Some x \<Rightarrow> x | None \<Rightarrow> Finite 0)
           else Finite 0)"
  by (auto simp: native_record_def pos_readable_def make_variant_def Let_def split: option.splits)

lemma parse_lines_single:
  "data_line l \<Longrightarrow> pos_readable l \<Longrightarrow> parse_lines fl [l] acc = (acc @ [native_record fl l], None)"
  by (simp add: data_line_def Let_def make_variant_ok)

lemma parse_lines_good_prefix:
  assumes "\<forall>l \<in> set pre. data_line l \<longrightarrow> pos_readable l"
  shows "parse_lines fl pre acc = (acc @ map (native_record fl) (filter data_line pre), None)"
proof -
  have tw: "takeWhile (\<lambda>l. data_line l \<longrightarrow> pos_readable l) pre = pre"
    using assms by (simp add: takeWhile_eq_all_conv)
  have "fst (parse_lines fl pre acc) = acc @ map (native_record fl) (filter data_line pre)"
    by (simp only: parse_lines_fst tw)
  moreover have "snd (parse_lines fl pre acc) = None"
    using assms by (simp add: parse_lines_snd)
  ultimately show ?thesis by (simp add: prod_eq_iff)
qed

lemma filtered_apply:
  "filtered_variants (apply_filters w) = filter (keeps (lower (search_input w)) (chk_pass w)) (all_variants w)"
  by (simp add: apply_filters_def Let_def filter_loop_filter)

lemma keeps_spec_fn: "keeps (lower q) p = spec_includes q p"
  by (rule ext) (rule keeps_spec)

lemma all_variants_apply: "all_variants (apply_filters w) = all_variants w"
  by (simp add: apply_filters_def Let_def)

section \<open>Absent QUAL in the native parser and in the table\<close>

text \<open>
  C1, as the code has it. For a data line with a readable POS whose QUAL column is \<open>.\<close>
  or is text that \<open>float\<close> rejects, \<open>parse_native\<close> stores \<open>qual = 0.0\<close>, the value a QUAL
  of \<open>0\<close> is stored as. The table shows a \<open>qual\<close> of \<open>0.0\<close>, like a \<open>qual\<close> of \<open>None\<close>, as
  \<open>.\<close>; every other \<open>qual\<close> is shown as its number rounded to two places.
\<close>

theorem absent_qual_stored_as_zero:
  assumes "data_line line" and "pos_readable line"
    and "columns line ! 5 = ''.'' \<or> fl (columns line ! 5) = None"
  shows "parse_lines fl [line] acc = (acc @ [native_record fl line], None) \<and>
         qual (native_record fl line) = Some (Finite 0) \<and>
         display_role (native_record fl line) 5 = Some (Text ''.'') \<and>
         (\<forall>v q. qual v = Some q \<and> q \<noteq> Finite 0 \<longrightarrow> display_role v 5 = Some (Rounded2 q)) \<and>
         (\<forall>v. qual v = None \<longrightarrow> display_role v 5 = Some (Text ''.''))"
proof -
  have q: "qual (native_record fl line) = Some (Finite 0)"
    using assms(2,3) by (auto simp: qual_native)
  have d: "display_role (native_record fl line) 5 = Some (Text ''.'')"
    by (simp add: display_role_def q float_truthy_def)
  show ?thesis
    using parse_lines_single[OF assms(1,2)] q d
    by (simp add: display_role_def float_truthy_def)
qed

theorem absent_qual_stored_as_zero_witness:
  "data_line line_dot \<and> pos_readable line_dot \<and> columns line_dot ! 5 = ''.'' \<and>
   parse_lines float_decimal [line_dot] [] = ([native_record float_decimal line_dot], None) \<and>
   qual (native_record float_decimal line_dot) = Some (Finite 0) \<and>
   display_role (native_record float_decimal line_dot) 5 = Some (Text ''.'')"
proof -
  have h1: "data_line line_dot" by code_simp
  have h2: "pos_readable line_dot" by code_simp
  have h3: "columns line_dot ! 5 = ''.''" by code_simp
  from h3 have h3': "columns line_dot ! 5 = ''.'' \<or> float_decimal (columns line_dot ! 5) = None"
    by simp
  show ?thesis
    using absent_qual_stored_as_zero[where fl = float_decimal and line = line_dot and acc = "[]",
        OF h1 h2 h3'] h1 h2 h3
    by simp
qed

text \<open>
  Against C1 as stated: a line with QUAL \<open>.\<close> and a line with QUAL \<open>0\<close> are stored with
  the same \<open>qual\<close>, and the row that was read from QUAL \<open>0\<close> is shown as \<open>.\<close>, not as a
  number.
\<close>

theorem zero_qual_counterexample:
  "columns line_dot ! 5 = ''.'' \<and> columns line_zero ! 5 = ''0'' \<and>
   map qual (fst (parse_lines float_decimal [line_dot, line_zero] [])) =
     [Some (Finite 0), Some (Finite 0)] \<and>
   data (fst (parse_lines float_decimal [line_dot, line_zero] [])) 1 5 = Inr (Some (Text ''.''))"
  by code_simp

section \<open>A load whose file does not open\<close>




section \<open>A data line whose POS is not a number\<close>

text \<open>
  C3, as the code has it. A data line whose POS column \<open>int\<close> rejects is not skipped: its
  \<open>ValueError\<close> ends the parse at that line. The records of the lines before it stay
  in \<open>all_variants\<close>, no later line is read, and \<open>load_vcf\<close> reports the error without
  filtering again. (Lines with fewer than 8 columns are skipped, and an unreadable
  QUAL is stored as \<open>0.0\<close>: neither ends the parse.)
\<close>

theorem unreadable_pos_ends_parse:
  assumes "\<forall>l \<in> set pre. data_line l \<longrightarrow> pos_readable l"
    and "data_line line" and "\<not> pos_readable line"
    and "file_path \<noteq> []"
    and "open_text (choose_opener file_path) file_path = Inr (pre @ line # post, read_failure)"
  shows "parse_lines fl (pre @ line # post) acc =
           (acc @ map (native_record fl) (filter data_line pre), Some (ValueError (columns line ! 1))) \<and>
         load_vcf False fl open_text variant_file file_path w =
           w \<lparr> all_variants := map (native_record fl) (filter data_line pre),
               lbl_status := ''Error loading file'',
               detail_view := ErrorText (ValueError (columns line ! 1)) \<rparr>"
proof -
  have one: "parse_lines fl (line # post) vs = (vs, Some (ValueError (columns line ! 1)))" for vs
    using assms(2,3) by (simp add: data_line_def Let_def make_variant_bad)
  have all: "parse_lines fl (pre @ line # post) vs =
      (vs @ map (native_record fl) (filter data_line pre), Some (ValueError (columns line ! 1)))" for vs
    by (simp only: parse_lines_append parse_lines_good_prefix[OF assms(1)] one prod.case option.case)
  show ?thesis
    using assms(4,5) by (simp add: all load_vcf_def parse_native_def Let_def)
qed

theorem unreadable_pos_ends_parse_witness:
  "data_line line_good \<and> pos_readable line_good \<and> data_line line_bad_pos \<and>
   \<not> pos_readable line_bad_pos \<and>
   parse_lines float_decimal ([line_good] @ line_bad_pos # [line_dot]) [] =
     ([variant_good], Some (ValueError ''abc'')) \<and>
   all_variants (load_vcf False float_decimal (file_of ([line_good] @ line_bad_pos # [line_dot]))
       no_variant_file ''sample.vcf'' window0) = [variant_good] \<and>
   lbl_status (load_vcf False float_decimal (file_of ([line_good] @ line_bad_pos # [line_dot]))
       no_variant_file ''sample.vcf'' window0) = ''Error loading file''"
proof -
  have h1: "\<forall>l \<in> set [line_good]. data_line l \<longrightarrow> pos_readable l" by code_simp
  have h2: "data_line line_bad_pos" by code_simp
  have h3: "\<not> pos_readable line_bad_pos" by code_simp
  have h4: "''sample.vcf'' \<noteq> []" by simp
  have h5: "file_of ([line_good] @ line_bad_pos # [line_dot]) (choose_opener ''sample.vcf'') ''sample.vcf'' =
      Inr ([line_good] @ line_bad_pos # [line_dot], None)"
    by (simp add: file_of_def)
  have g: "data_line line_good" "pos_readable line_good" by code_simp+
  have c: "columns line_bad_pos ! 1 = ''abc''" by code_simp
  have v: "native_record float_decimal line_good = variant_good" by code_simp
  show ?thesis
    using unreadable_pos_ends_parse[where fl = float_decimal and pre = "[line_good]"
        and line = line_bad_pos and post = "[line_dot]" and acc = "[]" and w = window0
        and variant_file = no_variant_file and file_path = "''sample.vcf''"
        and open_text = "file_of ([line_good] @ line_bad_pos # [line_dot])" and read_failure = None,
        OF h1 h2 h3 h4 h5] h2 h3 g c v
    by simp
qed

text \<open>
  Against C3 as stated: in a file whose first data line has the POS \<open>abc\<close> and whose
  second line is well formed, the parse stops with the error and the second line
  yields no record.
\<close>

theorem bad_pos_counterexample:
  "data_line line_bad_pos \<and> data_line line_good \<and> pos_readable line_good \<and>
   parse_native float_decimal (file_of [line_bad_pos, line_good]) ''sample.vcf'' [] =
     ([], Some (ValueError ''abc''))"
  by code_simp


section \<open>The filter predicate\<close>

text \<open>
  C5. \<open>apply_filters\<close> keeps exactly the records the specification's predicate
  includes: with the check box set, the filter field must be \<open>PASS\<close>, letter for
  letter; with a search text that is not empty, the text must occur, letter case
  ignored, in \<open>chrom\<close>, in the decimal form of \<open>pos\<close>, in \<open>str(id)\<close> or in \<open>info\<close>.
  The decision does not read \<open>ref\<close> or \<open>alt\<close>, and reads \<open>filter\<close> only for the check
  box. The search text \<open>CHR1\<close> keeps a record whose \<open>chrom\<close> is \<open>chr1\<close>.
\<close>

theorem filter_includes_as_specified:
  "filtered_variants (apply_filters w) =
     filter (spec_includes (search_input w) (chk_pass w)) (all_variants w) \<and>
   keeps (lower q) p (v \<lparr> ref := r, alt := a \<rparr>) = keeps (lower q) p v \<and>
   keeps (lower q) False (v \<lparr> filter_v := f \<rparr>) = keeps (lower q) False v \<and>
   (search_input w = ''CHR1'' \<and> \<not> chk_pass w \<and> u \<in> set (all_variants w) \<and> chrom u = ''chr1''
      \<longrightarrow> u \<in> set (filtered_variants (apply_filters w)))"
proof -
  have a: "filtered_variants (apply_filters w) =
     filter (spec_includes (search_input w) (chk_pass w)) (all_variants w)"
    by (simp only: filtered_apply keeps_spec_fn)
  have l: "lower ''CHR1'' = ''chr1''" by code_simp
  have l2: "lower ''chr1'' = ''chr1''" by code_simp
  have d: "chrom u = ''chr1'' \<Longrightarrow> keeps (lower ''CHR1'') False u"
    by (simp only: keeps_def l l2) simp
  show ?thesis
    using a d by (auto simp: filtered_apply keeps_def)
qed

theorem filter_includes_as_specified_witness:
  "filtered_variants (apply_filters (window_search ''CHR1'' False)) = [variant_dot] \<and>
   filtered_variants (apply_filters (window_search ''rs'' False)) = [variant_good] \<and>
   filtered_variants (apply_filters (window_search ''c'' True)) = [variant_dot] \<and>
   filtered_variants (apply_filters (window_search ''pass'' False)) = []"
proof -
  have s: "search_input (window_search q p) = q" "chk_pass (window_search q p) = p"
    "all_variants (window_search q p) = [variant_dot, variant_good]" for q p
    by (simp_all add: window_search_def)
  have c: "filter (spec_includes ''CHR1'' False) [variant_dot, variant_good] = [variant_dot]"
    "filter (spec_includes ''rs'' False) [variant_dot, variant_good] = [variant_good]"
    "filter (spec_includes ''c'' True) [variant_dot, variant_good] = [variant_dot]"
    "filter (spec_includes ''pass'' False) [variant_dot, variant_good] = []"
    by code_simp+
  show ?thesis
    using filter_includes_as_specified[where w = "window_search ''CHR1'' False"]
      filter_includes_as_specified[where w = "window_search ''rs'' False"]
      filter_includes_as_specified[where w = "window_search ''c'' True"]
      filter_includes_as_specified[where w = "window_search ''pass'' False"]
    by (simp only: s c) 
qed

section \<open>Order of the records\<close>

text \<open>
  C6. \<open>parse_native\<close> appends one record per data line, in the order of the lines:
  the records are the data lines read (all of them when the parse ends without an
  exception), each mapped to its record, with nothing dropped, merged or moved; the
  structured path appends one record per record of the reader, in order. The list
  \<open>apply_filters\<close> shows is a subsequence of \<open>all_variants\<close>.
\<close>

theorem records_keep_line_order:
  "fst (parse_lines fl lines []) =
     map (native_record fl) (filter data_line (takeWhile (\<lambda>l. data_line l \<longrightarrow> pos_readable l) lines)) \<and>
   (snd (parse_lines fl lines []) = None \<longrightarrow>
      fst (parse_lines fl lines []) = map (native_record fl) (filter data_line lines) \<and>
      map raw_info (fst (parse_lines fl lines [])) = filter data_line lines) \<and>
   parse_recs recs [] = map pysam_variant recs \<and>
   subseq (filtered_variants (apply_filters w)) (all_variants w)"
proof -
  have a: "fst (parse_lines fl lines []) =
     map (native_record fl) (filter data_line (takeWhile (\<lambda>l. data_line l \<longrightarrow> pos_readable l) lines))"
    by (simp only: parse_lines_fst append_Nil)
  have b: "fst (parse_lines fl lines []) = map (native_record fl) (filter data_line lines) \<and>
      map raw_info (fst (parse_lines fl lines [])) = filter data_line lines"
    if ok: "snd (parse_lines fl lines []) = None"
  proof -
    from ok have all: "\<forall>l \<in> set lines. data_line l \<longrightarrow> pos_readable l"
      by (simp only: parse_lines_snd)
    have p: "parse_lines fl lines [] = ([] @ map (native_record fl) (filter data_line lines), None)"
      by (rule parse_lines_good_prefix[OF all])
    have "map raw_info (map (native_record fl) (filter data_line lines)) = filter data_line lines"
      using all by (induction lines) (simp_all add: raw_info_native)
    then show ?thesis by (simp add: p)
  qed
  have c: "parse_recs recs [] = map pysam_variant recs"
    by (simp add: parse_recs_map)
  have d: "subseq (filtered_variants (apply_filters w)) (all_variants w)"
    by (simp add: filtered_apply)
  show ?thesis using a b c d by blast
qed

theorem records_keep_line_order_witness:
  "snd (parse_lines float_decimal [line_good, line_short, line_dot, line_good] []) = None \<and>
   map raw_info (fst (parse_lines float_decimal [line_good, line_short, line_dot, line_good] [])) =
     [line_good, line_dot, line_good] \<and>
   fst (parse_lines float_decimal [line_good, line_short, line_dot, line_good] []) =
     [variant_good, variant_dot, variant_good]"
proof -
  have h: "snd (parse_lines float_decimal [line_good, line_short, line_dot, line_good] []) = None"
    by code_simp
  have f: "filter data_line [line_good, line_short, line_dot, line_good] = [line_good, line_dot, line_good]"
    by code_simp
  have n: "native_record float_decimal line_good = variant_good"
    "native_record float_decimal line_dot = variant_dot"
    by code_simp+
  have m: "map (native_record float_decimal) [line_good, line_dot, line_good] =
      [variant_good, variant_dot, variant_good]"
    by (simp only: list.map n)
  note t = records_keep_line_order[where fl = float_decimal
        and lines = "[line_good, line_short, line_dot, line_good]"]
  from t h have r1: "fst (parse_lines float_decimal [line_good, line_short, line_dot, line_good] []) =
      map (native_record float_decimal) (filter data_line [line_good, line_short, line_dot, line_good])"
    by blast
  from t h have r2: "map raw_info (fst (parse_lines float_decimal [line_good, line_short, line_dot, line_good] [])) =
      filter data_line [line_good, line_short, line_dot, line_good]"
    by blast
  show ?thesis
  proof (intro conjI)
    show "snd (parse_lines float_decimal [line_good, line_short, line_dot, line_good] []) = None"
      by (rule h)
    show "map raw_info (fst (parse_lines float_decimal [line_good, line_short, line_dot, line_good] [])) =
        [line_good, line_dot, line_good]"
      by (simp only: r2 f)
    show "fst (parse_lines float_decimal [line_good, line_short, line_dot, line_good] []) =
        [variant_good, variant_dot, variant_good]"
      by (simp only: r1 f m)
  qed
qed

section \<open>Lines with fewer than 8 columns\<close>

text \<open>
  C7. A line that splits at tabs into fewer than 8 columns is skipped: the parse gives
  what it gives without that line. A file of one valid data line and one line of 3
  columns, in either order, yields exactly the one record of the valid line.
\<close>

theorem short_line_is_skipped:
  "(length (columns line) < 8 \<longrightarrow>
      parse_lines fl (pre @ line # post) acc = parse_lines fl (pre @ post) acc) \<and>
   (data_line good \<and> pos_readable good \<and> length (columns short) = 3 \<longrightarrow>
      parse_lines fl [good, short] [] = ([native_record fl good], None) \<and>
      parse_lines fl [short, good] [] = ([native_record fl good], None))"
proof -
  have skip: "parse_lines fl (l # rest) vs = parse_lines fl rest vs" if "length (columns l) < 8" for l rest vs
    using that by (simp add: Let_def)
  have a: "parse_lines fl (pre @ line # post) acc = parse_lines fl (pre @ post) acc"
    if "length (columns line) < 8"
    by (simp only: parse_lines_append[of fl pre "line # post"] parse_lines_append[of fl pre post] skip[OF that])
  have b: "parse_lines fl [good, short] [] = ([native_record fl good], None) \<and>
      parse_lines fl [short, good] [] = ([native_record fl good], None)"
    if g: "data_line good" "pos_readable good" and s: "length (columns short) = 3"
  proof -
    from s have s8: "length (columns short) < 8" by simp
    have g1: "parse_lines fl [good] [] = ([native_record fl good], None)"
      using parse_lines_single[OF g, of fl "[]"] by simp
    have "parse_lines fl ([good] @ short # []) [] = parse_lines fl ([good] @ []) []"
      by (simp only: parse_lines_append[of fl "[good]"] skip[OF s8])
    then have "parse_lines fl [good, short] [] = parse_lines fl [good] []" by simp
    moreover have "parse_lines fl [short, good] [] = parse_lines fl [good] []"
      by (rule skip[OF s8])
    ultimately show ?thesis by (simp only: g1)
  qed
  show ?thesis using a b by blast
qed

theorem short_line_is_skipped_witness:
  "length (columns line_short) = 3 \<and> data_line line_good \<and> pos_readable line_good \<and>
   parse_lines float_decimal [line_good, line_short] [] = ([variant_good], None) \<and>
   parse_lines float_decimal [line_short, line_good] [] = ([variant_good], None) \<and>
   parse_lines float_decimal ([line_dot] @ line_short # [line_good]) [] =
     parse_lines float_decimal ([line_dot] @ [line_good]) []"
proof -
  have s: "length (columns line_short) = 3" by code_simp
  have g: "data_line line_good" "pos_readable line_good" by code_simp+
  have n: "native_record float_decimal line_good = variant_good" by code_simp
  show ?thesis
    using short_line_is_skipped[where fl = float_decimal and line = line_short and pre = "[line_dot]"
        and post = "[line_good]" and acc = "[]" and good = line_good and short = line_short] s g n
    by simp
qed


section \<open>Filtering again\<close>

text \<open>
  C8. Filtering the list that \<open>apply_filters\<close> produced, with the same search text and
  check box, gives that list again; and running \<open>apply_filters\<close> twice on the window
  is running it once.
\<close>

theorem filter_twice_is_filter_once:
  "filtered_variants (apply_filters (w \<lparr> all_variants := filtered_variants (apply_filters w) \<rparr>)) =
     filtered_variants (apply_filters w) \<and>
   apply_filters (apply_filters w) = apply_filters w"
proof -
  have a: "filtered_variants (apply_filters (w \<lparr> all_variants := filtered_variants (apply_filters w) \<rparr>)) =
     filtered_variants (apply_filters w)"
    by (simp add: filtered_apply)
  have b: "apply_filters (apply_filters w) = apply_filters w"
    by (simp add: apply_filters_def Let_def)
  show ?thesis using a b by simp
qed

theorem filter_twice_is_filter_once_witness:
  "filtered_variants (apply_filters (window_search ''chr'' True)) = [variant_dot] \<and>
   filtered_variants (apply_filters ((window_search ''chr'' True)
       \<lparr> all_variants := filtered_variants (apply_filters (window_search ''chr'' True)) \<rparr>)) = [variant_dot]"
proof -
  have c: "filtered_variants (apply_filters (window_search ''chr'' True)) = [variant_dot]"
    by code_simp
  show ?thesis
    using filter_twice_is_filter_once[where w = "window_search ''chr'' True"] c
    by (simp only:) 
qed

section \<open>Narrowing the criteria\<close>






section \<open>An absent ID under the structured reader\<close>

text \<open>
  C10. A record of the structured reader whose ID is absent is stored with \<open>id = None\<close>;
  the search compares against \<open>str(None).lower()\<close>, the text \<open>none\<close>. Hence any search
  text whose lower-case form occurs in \<open>none\<close> keeps every such record (provided the
  check box, if set, admits it), though no field of the line holds that text.
\<close>

theorem none_matches_absent_id:
  assumes "rec_id r = None" and "r \<in> set recs"
    and "all_variants w = parse_recs recs []"
    and "sublist (lower (search_input w)) ''none''"
    and "chk_pass w \<longrightarrow> filter_string (rec_filter_keys r) = ''PASS''"
  shows "id_v (pysam_variant r) = None \<and>
         lower (str_opt (id_v (pysam_variant r))) = ''none'' \<and>
         pysam_variant r \<in> set (all_variants w) \<and>
         pysam_variant r \<in> set (filtered_variants (apply_filters w))"
proof -
  have i: "id_v (pysam_variant r) = None"
    using assms(1) by (simp add: pysam_variant_def)
  have n: "lower ''None'' = ''none''" by code_simp
  have l: "lower (str_opt (id_v (pysam_variant r))) = ''none''"
    by (simp only: i str_opt_def option.case n)
  have m: "pysam_variant r \<in> set (all_variants w)"
    using assms(2,3) by (simp add: parse_recs_map)
  have f: "filter_v (pysam_variant r) = filter_string (rec_filter_keys r)"
    by (simp add: pysam_variant_def)
  have k: "keeps (lower (search_input w)) (chk_pass w) (pysam_variant r)"
    unfolding keeps_def using assms(4,5) by (simp only: l f) blast
  show ?thesis using i l m k by (simp add: filtered_apply)
qed

theorem none_matches_absent_id_witness:
  "rec_id rec_dot = None \<and> sublist (lower ''NON'') ''none'' \<and>
   id_v (pysam_variant rec_dot) = None \<and>
   filtered_variants (apply_filters (window_pysam ''NON'' True)) = [pysam_variant rec_dot] \<and>
   pysam_variant rec_dot \<in> set (filtered_variants (apply_filters (window_pysam ''NON'' True))) \<and>
   filtered_variants (apply_filters ((window_search ''NON'' True))) = []"
proof -
  have h1: "rec_id rec_dot = None" by (simp add: rec_dot_def)
  have h2: "rec_dot \<in> set [rec_dot]" by simp
  have h3: "all_variants (window_pysam ''NON'' True) = parse_recs [rec_dot] []"
    by (simp add: window_pysam_def)
  have h4: "sublist (lower (search_input (window_pysam ''NON'' True))) ''none''" by code_simp
  have h5: "chk_pass (window_pysam ''NON'' True) \<longrightarrow> filter_string (rec_filter_keys rec_dot) = ''PASS''"
    by code_simp
  have s: "sublist (lower ''NON'') ''none''" by code_simp
  have c: "filtered_variants (apply_filters (window_pysam ''NON'' True)) = [pysam_variant rec_dot]"
    "filtered_variants (apply_filters ((window_search ''NON'' True))) = []"
    by code_simp+
  show ?thesis
    using none_matches_absent_id[where r = rec_dot and recs = "[rec_dot]" and w = "window_pysam ''NON'' True",
        OF h1 h2 h3 h4 h5] h1 s c
    by blast
qed


section \<open>The two readers on one data line\<close>








end
